theory Spec2Isabelle
  imports Main "HOL-Library.Word"
begin

section \<open>The SQLite backend of cleaver (cleaver/backend/memory.py)\<close>

text \<open>
  The backend keeps five tables. A table is modelled as the list of its rows in insertion
  order (no statement of the backend deletes a row, so the rowid order of SQLite is the
  insertion order, and a \<^verbatim>\<open>SELECT\<close> without \<^verbatim>\<open>ORDER BY\<close> that scans the table yields the rows
  in that order). All names and identities are strings.
\<close>

datatype error =
    IntegrityError
  | TypeError
  | AttributeError
  | NameError
  | ConfigurationError
  | IdentityError
  | ConsistencyError
  | IndexError
  | ConfigurationDrift

text \<open>Table \<^verbatim>\<open>e (name TEXT PRIMARY KEY, started_on TEXT)\<close>.\<close>

record e_row =
  e_name :: string
  e_started_on :: "string option"

text \<open>Table \<^verbatim>\<open>v (name TEXT PRIMARY KEY, experiment_name TEXT)\<close>.\<close>

record v_row =
  v_name :: string
  v_experiment_name :: string

text \<open>
  Table \<^verbatim>\<open>i (identity TEXT PRIMAY KEY, experiment_name TEXT, variant TEXT)\<close>. The words
  after the column name are not the constraint \<^verbatim>\<open>PRIMARY KEY\<close>: SQLite reads the three words
  \<^verbatim>\<open>TEXT PRIMAY KEY\<close> as the declared type of the column, so the table has no uniqueness
  constraint at all.
\<close>

record i_row =
  i_identity :: string
  i_experiment_name :: string
  i_variant :: string

text \<open>
  What the column \<^verbatim>\<open>total INTEGER DEFAULT 0\<close> can hold under the statements of the
  backend: a signed 64-bit integer, or the floating-point number 9223372036854775808.0,
  that is \<open>2 ^ 63\<close>. SQLite adds integers in 64 bits; when the sum overflows it adds
  the operands again as floating-point numbers. The largest integer \<open>2 ^ 63 - 1\<close> is
  rounded to \<open>2 ^ 63\<close> there, and \<open>2 ^ 63 + 1\<close> is rounded to \<open>2 ^ 63\<close> again,
  so \<open>2 ^ 63\<close> is the only number that is not an integer which \<^verbatim>\<open>total + 1\<close> produces
  from these values, and the column keeps it as it is (it fits no 64-bit integer).
\<close>

datatype sqlite_total = SqlInteger "64 word" | SqlReal_2_63

text \<open>The SQL expression \<^verbatim>\<open>total + 1\<close>.\<close>

definition sql_add_one :: "sqlite_total \<Rightarrow> sqlite_total" where
  "sql_add_one t =
     (case t of
        SqlInteger w \<Rightarrow> (if sint w = 2 ^ 63 - 1 then SqlReal_2_63 else SqlInteger (w + 1))
      | SqlReal_2_63 \<Rightarrow> SqlReal_2_63)"

text \<open>
  What Python makes of the value: \<^verbatim>\<open>int(row['total'])\<close>, and its truth value in
  \<^verbatim>\<open>row and row['total']\<close> (a number is false when it is zero).
\<close>

definition python_int :: "sqlite_total \<Rightarrow> int" where
  "python_int t = (case t of SqlInteger w \<Rightarrow> sint w | SqlReal_2_63 \<Rightarrow> 2 ^ 63)"

definition python_truth :: "sqlite_total \<Rightarrow> bool" where
  "python_truth t = (case t of SqlInteger w \<Rightarrow> w \<noteq> 0 | SqlReal_2_63 \<Rightarrow> True)"

text \<open>
  Tables \<^verbatim>\<open>p\<close> and \<^verbatim>\<open>c\<close>:
  \<^verbatim>\<open>(experiment_name TEXT, variant TEXT, total INTEGER DEFAULT 0,
    PRIMARY KEY (experiment_name, variant))\<close>.
\<close>

record counter_row =
  c_experiment_name :: string
  c_variant :: string
  c_total :: sqlite_total

record db =
  tbl_e :: "e_row list"
  tbl_v :: "v_row list"
  tbl_i :: "i_row list"
  tbl_p :: "counter_row list"
  tbl_c :: "counter_row list"

text \<open>What \<^verbatim>\<open>_factory\<close> builds (the \<^verbatim>\<open>backend=self\<close> field is left out).\<close>

record Experiment =
  exp_name :: string
  exp_started_on :: "string option"
  exp_variants :: "string list"

subsection \<open>The SQL statements the backend issues\<close>

text \<open>\<^verbatim>\<open>cursor.fetchone()\<close>: the first row of the result, or \<^verbatim>\<open>None\<close>.\<close>

definition fetchone :: "'r list \<Rightarrow> 'r option" where
  "fetchone rows = (case rows of [] \<Rightarrow> None | r # _ \<Rightarrow> Some r)"

text \<open>
  \<^verbatim>\<open>INSERT INTO t ...\<close> on a table with a primary key: the statement raises
  \<^verbatim>\<open>sqlite3.IntegrityError\<close> and changes nothing when the key is taken.
\<close>

definition insert_pk :: "('r \<Rightarrow> 'k) \<Rightarrow> 'r \<Rightarrow> 'r list \<Rightarrow> error + 'r list" where
  "insert_pk key row rows =
     (if key row \<in> set (map key rows) then Inl IntegrityError else Inr (rows @ [row]))"

text \<open>\<^verbatim>\<open>INSERT OR IGNORE INTO t ...\<close>: the conflicting row is skipped silently.\<close>

definition insert_or_ignore :: "('r \<Rightarrow> 'k) \<Rightarrow> 'r \<Rightarrow> 'r list \<Rightarrow> 'r list" where
  "insert_or_ignore key row rows =
     (if key row \<in> set (map key rows) then rows else rows @ [row])"

definition counter_key :: "counter_row \<Rightarrow> string \<times> string" where
  "counter_key r = (c_experiment_name r, c_variant r)"

text \<open>
  \<^verbatim>\<open>INSERT OR IGNORE INTO p (experiment_name, variant) VALUES (?, ?)\<close> followed by
  \<^verbatim>\<open>UPDATE p SET total = total + 1 WHERE experiment_name = ? AND variant = ?\<close>
  (the same two statements on \<^verbatim>\<open>c\<close>). The inserted row takes the default total 0.
\<close>

definition update_total :: "string \<Rightarrow> string \<Rightarrow> counter_row list \<Rightarrow> counter_row list" where
  "update_total experiment_name variant rows =
     map (\<lambda>r. if c_experiment_name r = experiment_name \<and> c_variant r = variant
               then r\<lparr>c_total := sql_add_one (c_total r)\<rparr> else r) rows"

definition bump_counter :: "string \<Rightarrow> string \<Rightarrow> counter_row list \<Rightarrow> counter_row list" where
  "bump_counter experiment_name variant rows =
     update_total experiment_name variant
       (insert_or_ignore counter_key
          \<lparr>c_experiment_name = experiment_name, c_variant = variant, c_total = SqlInteger 0\<rparr>
          rows)"

text \<open>
  \<^verbatim>\<open>SELECT total FROM t WHERE experiment_name = ? AND variant = ?\<close>, then
  \<^verbatim>\<open>int(row['total']) if row and row['total'] else 0\<close>.
\<close>

definition read_total :: "string \<Rightarrow> string \<Rightarrow> counter_row list \<Rightarrow> int" where
  "read_total experiment_name variant rows =
     (case fetchone (filter (\<lambda>r. c_experiment_name r = experiment_name \<and> c_variant r = variant) rows) of
        None \<Rightarrow> 0
      | Some row \<Rightarrow> (if python_truth (c_total row) then python_int (c_total row) else 0))"

subsection \<open>The methods of \<^verbatim>\<open>SQLiteBackend\<close>\<close>

definition factory :: "db \<Rightarrow> e_row \<Rightarrow> Experiment" where
  "factory s row =
     \<lparr>exp_name = e_name row,
      exp_started_on = e_started_on row,
      exp_variants = map v_name (filter (\<lambda>r. v_experiment_name r = e_name row) (tbl_v s))\<rparr>"

definition all_experiments :: "db \<Rightarrow> Experiment list" where
  "all_experiments s = map (factory s) (tbl_e s)"

text \<open>The parameter \<^verbatim>\<open>variants\<close> is not used by the method.\<close>

definition get_experiment :: "db \<Rightarrow> string \<Rightarrow> string list \<Rightarrow> Experiment option" where
  "get_experiment s name variants =
     (case fetchone (filter (\<lambda>r. e_name r = name) (tbl_e s)) of
        None \<Rightarrow> None
      | Some row \<Rightarrow> Some (factory s row))"

text \<open>
  A method that returns nothing yields the exception it raised, if any, and the database
  as the connection sees it afterwards: the statements that ran before a failing one have
  taken effect (nothing rolls them back).
\<close>

fun insert_variants :: "db \<Rightarrow> string \<Rightarrow> string list \<Rightarrow> error option \<times> db" where
  "insert_variants s name [] = (None, s)"
| "insert_variants s name (x # xs) =
     (case insert_pk v_name \<lparr>v_name = x, v_experiment_name = name\<rparr> (tbl_v s) of
        Inl err \<Rightarrow> (Some err, s)
      | Inr rows \<Rightarrow> insert_variants (s\<lparr>tbl_v := rows\<rparr>) name xs)"

definition set_experiment :: "db \<Rightarrow> string \<Rightarrow> string list \<Rightarrow> error option \<times> db" where
  "set_experiment s name variants =
     (case insert_pk e_name \<lparr>e_name = name, e_started_on = None\<rparr> (tbl_e s) of
        Inl err \<Rightarrow> (Some err, s)
      | Inr rows \<Rightarrow> insert_variants (s\<lparr>tbl_e := rows\<rparr>) name variants)"

definition get_variant :: "db \<Rightarrow> string \<Rightarrow> string \<Rightarrow> string option" where
  "get_variant s identity experiment_name =
     (case fetchone (filter (\<lambda>r. i_identity r = identity \<and> i_experiment_name r = experiment_name)
                       (tbl_i s)) of
        None \<Rightarrow> None
      | Some row \<Rightarrow> Some (i_variant row))"

text \<open>
  Table \<^verbatim>\<open>i\<close> has no constraint, so the first statement of \<^verbatim>\<open>participate\<close> always
  appends its row; the two statements on \<^verbatim>\<open>p\<close> cannot fail either.
\<close>

definition participate :: "db \<Rightarrow> string \<Rightarrow> string \<Rightarrow> string \<Rightarrow> db" where
  "participate s identity experiment_name variant =
     s\<lparr>tbl_i := tbl_i s @
          [\<lparr>i_identity = identity, i_experiment_name = experiment_name, i_variant = variant\<rparr>],
       tbl_p := bump_counter experiment_name variant (tbl_p s)\<rparr>"

definition score :: "db \<Rightarrow> string \<Rightarrow> string \<Rightarrow> db" where
  "score s experiment_name variant =
     s\<lparr>tbl_c := bump_counter experiment_name variant (tbl_c s)\<rparr>"

definition participants :: "db \<Rightarrow> string \<Rightarrow> string \<Rightarrow> int" where
  "participants s experiment_name variant = read_total experiment_name variant (tbl_p s)"

definition conversions :: "db \<Rightarrow> string \<Rightarrow> string \<Rightarrow> int" where
  "conversions s experiment_name variant = read_total experiment_name variant (tbl_c s)"

text \<open>The database right after the five \<^verbatim>\<open>CREATE TABLE\<close> statements on a new file.\<close>

definition empty_db :: db where
  "empty_db = \<lparr>tbl_e = [], tbl_v = [], tbl_i = [], tbl_p = [], tbl_c = []\<rparr>"

subsection \<open>Well-formed databases\<close>

text \<open>
  Every row of \<^verbatim>\<open>v\<close> names an experiment of \<^verbatim>\<open>e\<close>. The empty database has the property and
  every method keeps it, since \<^verbatim>\<open>set_experiment\<close> writes the experiment before its variants.
\<close>

definition v_refs_e :: "db \<Rightarrow> bool" where
  "v_refs_e s = list_all (\<lambda>r. v_experiment_name r \<in> set (map e_name (tbl_e s))) (tbl_v s)"

subsection \<open>The constructor \<^verbatim>\<open>SQLiteBackend.__init__\<close>\<close>

text \<open>
  The values the caller can pass as \<^verbatim>\<open>db\<close>: a connection string, an open connection (the
  database it is connected to), and, since Python checks nothing at the call, a class
  object, a tuple of values or \<^verbatim>\<open>None\<close>. A table that does not exist yet is \<open>None\<close>.
\<close>

record sqlite_file =
  file_e :: "e_row list option"
  file_v :: "v_row list option"
  file_i :: "i_row list option"
  file_p :: "counter_row list option"
  file_c :: "counter_row list option"

datatype pyclass = Object_class | Type_class | Basestring_class | Str_class | Connection_class

datatype pyobj =
    PyStr string
  | PyConnection sqlite_file
  | PyClass pyclass
  | PyTuple "pyobj list"
  | PyNone

text \<open>
  \<^verbatim>\<open>isinstance(basestring, db)\<close>: the object tested is the class \<^verbatim>\<open>basestring\<close> itself, an
  instance of \<^verbatim>\<open>type\<close>, and \<^verbatim>\<open>db\<close> stands where the class is expected. Python answers
  for a class (true for \<^verbatim>\<open>type\<close> and \<^verbatim>\<open>object\<close>, the classes \<^verbatim>\<open>basestring\<close> is an instance
  of), goes through a tuple from left to right, and raises \<^verbatim>\<open>TypeError\<close> (arg 2 must be a
  class, type, or tuple of classes and types) for anything else.
\<close>

fun isinstance_basestring :: "pyobj \<Rightarrow> error + bool"
  and isinstance_basestring_any :: "pyobj list \<Rightarrow> error + bool" where
  "isinstance_basestring (PyClass k) = Inr (k = Type_class \<or> k = Object_class)"
| "isinstance_basestring (PyTuple xs) = isinstance_basestring_any xs"
| "isinstance_basestring (PyStr _) = Inl TypeError"
| "isinstance_basestring (PyConnection _) = Inl TypeError"
| "isinstance_basestring PyNone = Inl TypeError"
| "isinstance_basestring_any [] = Inr False"
| "isinstance_basestring_any (x # xs) =
     (case isinstance_basestring x of
        Inl err \<Rightarrow> Inl err
      | Inr b \<Rightarrow> (if b then Inr True else isinstance_basestring_any xs))"

text \<open>
  \<^verbatim>\<open>sqlite3.connect(db)\<close> takes a path; \<open>fs\<close> is the file system, giving the database
  stored under a path.
\<close>

fun sqlite3_connect :: "(string \<Rightarrow> sqlite_file) \<Rightarrow> pyobj \<Rightarrow> error + sqlite_file" where
  "sqlite3_connect fs (PyStr path) = Inr (fs path)"
| "sqlite3_connect fs _ = Inl TypeError"

text \<open>\<^verbatim>\<open>CREATE TABLE IF NOT EXISTS\<close>.\<close>

definition create_table_if_not_exists :: "'r list option \<Rightarrow> 'r list" where
  "create_table_if_not_exists t = (case t of None \<Rightarrow> [] | Some rows \<Rightarrow> rows)"

definition create_tables :: "sqlite_file \<Rightarrow> db" where
  "create_tables f =
     \<lparr>tbl_e = create_table_if_not_exists (file_e f),
      tbl_v = create_table_if_not_exists (file_v f),
      tbl_i = create_table_if_not_exists (file_i f),
      tbl_p = create_table_if_not_exists (file_p f),
      tbl_c = create_table_if_not_exists (file_c f)\<rparr>"

text \<open>
  \<^verbatim>\<open>__init__(self, db, table_prefix)\<close>. The name \<^verbatim>\<open>basestring\<close> exists in Python 2 only
  (\<open>basestring_defined\<close>); looking it up elsewhere raises \<^verbatim>\<open>NameError\<close>. The attribute
  \<^verbatim>\<open>self._conn\<close> is assigned in the branch of the \<^verbatim>\<open>if\<close> only, so reading it after the
  other branch raises \<^verbatim>\<open>AttributeError\<close>. The result is the database behind the new
  backend. \<^verbatim>\<open>table_prefix\<close> is not used.
\<close>

definition init :: "bool \<Rightarrow> (string \<Rightarrow> sqlite_file) \<Rightarrow> pyobj \<Rightarrow> string \<Rightarrow> error + db" where
  "init basestring_defined fs db_arg table_prefix =
     (if \<not> basestring_defined then Inl NameError
      else case isinstance_basestring db_arg of
        Inl err \<Rightarrow> Inl err
      | Inr b \<Rightarrow>
          (case (if b then map_sum id Some (sqlite3_connect fs db_arg) else Inr None) of
             Inl err \<Rightarrow> Inl err
           | Inr None \<Rightarrow> Inl AttributeError
           | Inr (Some conn) \<Rightarrow> Inr (create_tables conn)))"

section \<open>The engine (cleaver/base.py and cleaver/util.py, which the sources do not hold)\<close>

subsection \<open>The parser of variant definitions\<close>

datatype val = BoolV bool | StrV string

datatype raw_def = Pair2 string val | Triple3 string val int

fun def_name :: "raw_def \<Rightarrow> string" where
  "def_name (Pair2 n _) = n"
| "def_name (Triple3 n _ _) = n"

fun def_value :: "raw_def \<Rightarrow> val" where
  "def_value (Pair2 _ x) = x"
| "def_value (Triple3 _ x _) = x"

fun def_weight :: "raw_def \<Rightarrow> int" where
  "def_weight (Pair2 _ _) = 1"
| "def_weight (Triple3 _ _ w) = w"

fun is_triple :: "raw_def \<Rightarrow> bool" where
  "is_triple (Pair2 _ _) = False"
| "is_triple (Triple3 _ _ _) = True"

definition same_arity :: "raw_def list \<Rightarrow> bool" where
  "same_arity raw = (list_all is_triple raw \<or> list_all (\<lambda>d. \<not> is_triple d) raw)"

text \<open>
  Modelled from the spec: \<^verbatim>\<open>Cleaver._parse_variants\<close> (cleaver/base.py) is not among the
  sources; this is \<^verbatim>\<open>parse\<close> of section 4.1. No input gives the boolean default; tuples of
  mixed arity, fewer than two variants, a duplicate name and a weight that is not positive
  are a \<^verbatim>\<open>ConfigurationError\<close>; a missing weight is 1; the three sequences keep the input
  order.
\<close>

definition parse :: "raw_def list \<Rightarrow> error + (string list \<times> val list \<times> int list)" where
  "parse raw_definitions =
     (if raw_definitions = [] then
        Inr ([''True'', ''False''], [BoolV True, BoolV False], [1, 1])
      else if \<not> same_arity raw_definitions then Inl ConfigurationError
      else if length raw_definitions < 2 then Inl ConfigurationError
      else if \<not> distinct (map def_name raw_definitions) then Inl ConfigurationError
      else if \<not> list_all (\<lambda>w. 0 < w) (map def_weight raw_definitions) then Inl ConfigurationError
      else Inr (map def_name raw_definitions,
                map def_value raw_definitions,
                map def_weight raw_definitions))"

subsection \<open>The weighted sampler\<close>

text \<open>
  Modelled from the spec: \<^verbatim>\<open>cleaver.util.random_variant\<close> is not among the sources; this
  is the reference algorithm of section 4.2. \<open>cumulative\<close> is the array of running sums,
  one entry per variant.
\<close>

fun accumulate :: "int \<Rightarrow> int list \<Rightarrow> int list" where
  "accumulate running [] = []"
| "accumulate running (w # ws) = (running + w) # accumulate (running + w) ws"

definition cumulative :: "int list \<Rightarrow> int list" where
  "cumulative weights = accumulate 0 weights"

text \<open>
  Modelled from the spec: the search over the cumulative boundaries of section 4.2, as a
  binary search for the first boundary above \<open>x\<close> between \<open>lo\<close> and \<open>hi\<close>. The second
  component counts the boundaries the search compares \<open>x\<close> with.
\<close>

function bisect_from :: "int list \<Rightarrow> int \<Rightarrow> nat \<Rightarrow> nat \<Rightarrow> nat \<times> nat" where
  "bisect_from a x lo hi =
     (if lo < hi then
        (if x < a ! ((lo + hi) div 2)
         then (case bisect_from a x lo ((lo + hi) div 2) of (k, n) \<Rightarrow> (k, Suc n))
         else (case bisect_from a x ((lo + hi) div 2 + 1) hi of (k, n) \<Rightarrow> (k, Suc n)))
      else (lo, 0))"
  by pat_completeness auto
termination
  by (relation "measure (\<lambda>(a, x, lo, hi). hi - lo)") auto

text \<open>
  Modelled from the spec: \<^verbatim>\<open>choose(weights)\<close> of section 4.2. \<open>r\<close> is the draw of the
  uniform source over \<open>[0, sum(weights))\<close>; the result is the index chosen and the number
  of comparisons the search made.
\<close>

definition choose_cost :: "int list \<Rightarrow> int \<Rightarrow> nat \<times> nat" where
  "choose_cost weights r =
     bisect_from (cumulative weights) r 0 (length (cumulative weights))"

definition choose_index :: "int list \<Rightarrow> int \<Rightarrow> nat" where
  "choose_index weights r = fst (choose_cost weights r)"

subsection \<open>The split operation\<close>

text \<open>\<^verbatim>\<open>names.index(variant_name)\<close>: the first position of the name, if it has one.\<close>

fun index_of :: "string list \<Rightarrow> string \<Rightarrow> nat option" where
  "index_of [] x = None"
| "index_of (n # ns) x = (if n = x then Some 0 else map_option Suc (index_of ns x))"

text \<open>
  Modelled from the spec: step 6 of section 4.4, \<^verbatim>\<open>values[names.index(variant_name)]\<close>; a
  stored name that is not among the supplied names is surfaced as an error.
\<close>

definition decode :: "string list \<Rightarrow> val list \<Rightarrow> string \<Rightarrow> error + val" where
  "decode names values variant_name =
     (case index_of names variant_name of
        None \<Rightarrow> Inl ConfigurationDrift
      | Some k \<Rightarrow> (if k < length values then Inr (values ! k) else Inl IndexError))"

text \<open>
  Modelled from the spec: step 2 of section 4.4: fetch the experiment; if absent, create
  it and fetch again; still absent is a \<^verbatim>\<open>ConsistencyError\<close>. A failure of the store is
  passed on as it is.
\<close>

definition ensure_experiment :: "db \<Rightarrow> string \<Rightarrow> string list \<Rightarrow> error option \<times> db" where
  "ensure_experiment s experiment_name names =
     (case get_experiment s experiment_name names of
        Some _ \<Rightarrow> (None, s)
      | None \<Rightarrow>
          (case set_experiment s experiment_name names of
             (Some err, s1) \<Rightarrow> (Some err, s1)
           | (None, s1) \<Rightarrow>
               (case get_experiment s1 experiment_name names of
                  None \<Rightarrow> (Some ConsistencyError, s1)
                | Some _ \<Rightarrow> (None, s1))))"

text \<open>
  Modelled from the spec: \<^verbatim>\<open>Cleaver.split\<close> (cleaver/base.py) is not among the sources;
  these are steps 1 to 6 of section 4.4 over the backend above. \<open>identity\<close> is what the
  identity provider answers (\<open>None\<close> when it resolves no visitor) and \<open>r\<close> is the draw of
  the sampler. The result is the decoded value or the error, and the database afterwards.
\<close>

definition split :: "db \<Rightarrow> string option \<Rightarrow> int \<Rightarrow> string \<Rightarrow> raw_def list \<Rightarrow> (error + val) \<times> db" where
  "split s identity r experiment_name raw_definitions =
     (case parse raw_definitions of
        Inl err \<Rightarrow> (Inl err, s)
      | Inr (names, values, weights) \<Rightarrow>
          (case ensure_experiment s experiment_name names of
             (Some err, s1) \<Rightarrow> (Inl err, s1)
           | (None, s1) \<Rightarrow>
               (case identity of
                  None \<Rightarrow> (Inl IdentityError, s1)
                | Some ident \<Rightarrow>
                    (case get_variant s1 ident experiment_name of
                       Some variant_name \<Rightarrow> (decode names values variant_name, s1)
                     | None \<Rightarrow>
                         (if choose_index weights r < length names then
                            (decode names values (names ! choose_index weights r),
                             participate s1 ident experiment_name (names ! choose_index weights r))
                          else (Inl IndexError, s1))))))"

text \<open>
  Successive calls of \<^verbatim>\<open>split\<close> by one visitor for one experiment with the same
  definitions, one draw of the sampler per call: the results in order, and the database
  after the last call.
\<close>

fun split_again ::
  "db \<Rightarrow> string option \<Rightarrow> string \<Rightarrow> raw_def list \<Rightarrow> int list \<Rightarrow> (error + val) list \<times> db" where
  "split_again s identity experiment_name raw_definitions [] = ([], s)"
| "split_again s identity experiment_name raw_definitions (r # rs) =
     (case split s identity r experiment_name raw_definitions of
        (res, s1) \<Rightarrow>
          (case split_again s1 identity experiment_name raw_definitions rs of
             (ress, s2) \<Rightarrow> (res # ress, s2)))"

subsection \<open>Two databases used as concrete inputs\<close>

text \<open>
  The database after \<^verbatim>\<open>set_experiment('promo', ['A', 'B'])\<close> on a new file, and the same
  after \<^verbatim>\<open>participate('u1', 'promo', 'A')\<close>.
\<close>

definition promo_db :: db where
  "promo_db =
     \<lparr>tbl_e = [\<lparr>e_name = ''promo'', e_started_on = None\<rparr>],
      tbl_v = [\<lparr>v_name = ''A'', v_experiment_name = ''promo''\<rparr>,
               \<lparr>v_name = ''B'', v_experiment_name = ''promo''\<rparr>],
      tbl_i = [], tbl_p = [], tbl_c = []\<rparr>"

definition visited_db :: db where
  "visited_db =
     promo_db\<lparr>tbl_i := [\<lparr>i_identity = ''u1'', i_experiment_name = ''promo'', i_variant = ''A''\<rparr>],
              tbl_p := [\<lparr>c_experiment_name = ''promo'', c_variant = ''A'', c_total = SqlInteger 1\<rparr>]\<rparr>"

text \<open>
  The database \<open>promo_db\<close> in which the conversion counter of variant \<open>A\<close> has reached
  9223372036854775807, the largest 64-bit integer.
\<close>

definition limit_db :: db where
  "limit_db =
     promo_db\<lparr>tbl_c := [\<lparr>c_experiment_name = ''promo'', c_variant = ''A'',
                          c_total = SqlInteger 9223372036854775807\<rparr>]\<rparr>"

section \<open>Properties of the backend\<close>

subsection \<open>Reading the first row of a selection\<close>

lemma fetchone_None_iff: "(fetchone rows = None) = (rows = [])"
  by (cases rows) (simp_all add: fetchone_def)

lemma fetchone_Some_mem: "fetchone (filter P rows) = Some r \<Longrightarrow> r \<in> set rows \<and> P r"
proof -
  assume "fetchone (filter P rows) = Some r"
  then have "r \<in> set (filter P rows)"
    by (cases "filter P rows") (simp_all add: fetchone_def)
  then show ?thesis by simp
qed

lemma fetchone_filter_append_new:
  "\<forall>r \<in> set rows. \<not> P r \<Longrightarrow> P row \<Longrightarrow> fetchone (filter P (rows @ [row])) = Some row"
  by (induction rows) (auto simp: fetchone_def)

lemma get_experiment_None_iff:
  "(get_experiment s name vs = None) = (name \<notin> set (map e_name (tbl_e s)))"
proof -
  have "(get_experiment s name vs = None) =
          (fetchone (filter (\<lambda>r. e_name r = name) (tbl_e s)) = None)"
    by (simp add: get_experiment_def split: option.splits)
  also have "\<dots> = (filter (\<lambda>r. e_name r = name) (tbl_e s) = [])"
    by (rule fetchone_None_iff)
  also have "\<dots> = (name \<notin> set (map e_name (tbl_e s)))"
    by (auto simp: filter_empty_conv)
  finally show ?thesis .
qed

subsection \<open>The demonstration databases are what the methods produce\<close>

lemma promo_db_built: "set_experiment empty_db ''promo'' [''A'', ''B''] = (None, promo_db)"
  by (simp add: set_experiment_def insert_pk_def empty_db_def promo_db_def)

lemma visited_db_built: "participate promo_db ''u1'' ''promo'' ''A'' = visited_db"
  by (simp add: participate_def bump_counter_def update_total_def insert_or_ignore_def
      counter_key_def sql_add_one_def promo_db_def visited_db_def)

subsection \<open>The experiment catalog\<close>

lemma insert_variants_ok:
  "insert_variants s name vs = (None, s') \<Longrightarrow>
   s' = s\<lparr>tbl_v := tbl_v s @ map (\<lambda>x. \<lparr>v_name = x, v_experiment_name = name\<rparr>) vs\<rparr>"
proof (induction vs arbitrary: s)
  case Nil
  then show ?case by simp
next
  case (Cons x xs)
  let ?s1 = "s\<lparr>tbl_v := tbl_v s @ [\<lparr>v_name = x, v_experiment_name = name\<rparr>]\<rparr>"
  from Cons.prems have fresh: "x \<notin> set (map v_name (tbl_v s))"
    by (auto simp: insert_pk_def split: if_splits)
  with Cons.prems have "insert_variants ?s1 name xs = (None, s')"
    by (simp add: insert_pk_def)
  then have "s' = ?s1\<lparr>tbl_v := tbl_v ?s1 @ map (\<lambda>x. \<lparr>v_name = x, v_experiment_name = name\<rparr>) xs\<rparr>"
    by (rule Cons.IH)
  then show ?case by simp
qed

lemma v_refs_e_empty: "v_refs_e empty_db"
  by (simp add: v_refs_e_def empty_db_def)

lemma insert_variants_v_refs_e:
  "v_refs_e s \<Longrightarrow> name \<in> set (map e_name (tbl_e s)) \<Longrightarrow>
   v_refs_e (snd (insert_variants s name vs))"
proof (induction vs arbitrary: s)
  case Nil
  then show ?case by simp
next
  case (Cons x xs)
  show ?case
  proof (cases "x \<in> set (map v_name (tbl_v s))")
    case True
    with Cons.prems show ?thesis by (simp add: insert_pk_def)
  next
    case False
    let ?s1 = "s\<lparr>tbl_v := tbl_v s @ [\<lparr>v_name = x, v_experiment_name = name\<rparr>]\<rparr>"
    have "v_refs_e ?s1" using Cons.prems by (simp add: v_refs_e_def)
    moreover have "name \<in> set (map e_name (tbl_e ?s1))" using Cons.prems by simp
    ultimately have "v_refs_e (snd (insert_variants ?s1 name xs))" by (rule Cons.IH)
    with False show ?thesis by (simp add: insert_pk_def)
  qed
qed

lemma set_experiment_v_refs_e:
  assumes "v_refs_e s"
  shows "v_refs_e (snd (set_experiment s name variants))"
proof (cases "name \<in> set (map e_name (tbl_e s))")
  case True
  with assms show ?thesis by (simp add: set_experiment_def insert_pk_def)
next
  case False
  let ?s1 = "s\<lparr>tbl_e := tbl_e s @ [\<lparr>e_name = name, e_started_on = None\<rparr>]\<rparr>"
  have "v_refs_e ?s1" using assms by (auto simp: v_refs_e_def list_all_iff)
  moreover have "name \<in> set (map e_name (tbl_e ?s1))" by simp
  ultimately have "v_refs_e (snd (insert_variants ?s1 name variants))"
    by (rule insert_variants_v_refs_e)
  with False show ?thesis by (simp add: set_experiment_def insert_pk_def)
qed

lemma participate_v_refs_e: "v_refs_e (participate s identity e v) = v_refs_e s"
  by (simp add: v_refs_e_def participate_def)

lemma score_v_refs_e: "v_refs_e (score s e v) = v_refs_e s"
  by (simp add: v_refs_e_def score_def)

text \<open>
  C3. \<^verbatim>\<open>set_experiment\<close> for a name the store already holds changes nothing: the insert
  into \<^verbatim>\<open>e\<close> is the first statement, the primary key refuses it, and the conflict is
  raised before any variant is written. The store afterwards is the store before, so the
  experiment and its variant list are those of the first writer.
\<close>

theorem set_experiment_existing_name:
  assumes "get_experiment s name expected = Some ex"
  shows "set_experiment s name variants = (Some IntegrityError, s) \<and>
         get_experiment (snd (set_experiment s name variants)) name expected = Some ex"
proof -
  from assms have "name \<in> set (map e_name (tbl_e s))"
    using get_experiment_None_iff [of s name expected] by auto
  then have "set_experiment s name variants = (Some IntegrityError, s)"
    by (simp add: set_experiment_def insert_pk_def)
  with assms show ?thesis by simp
qed

theorem set_experiment_existing_name_witness:
  "get_experiment promo_db ''promo'' [''X'', ''Y''] =
     Some \<lparr>exp_name = ''promo'', exp_started_on = None, exp_variants = [''A'', ''B'']\<rparr> \<and>
   set_experiment promo_db ''promo'' [''X'', ''Y''] = (Some IntegrityError, promo_db) \<and>
   get_experiment (snd (set_experiment promo_db ''promo'' [''X'', ''Y''])) ''promo'' [''X'', ''Y''] =
     Some \<lparr>exp_name = ''promo'', exp_started_on = None, exp_variants = [''A'', ''B'']\<rparr>"
proof -
  have h: "get_experiment promo_db ''promo'' [''X'', ''Y''] =
             Some \<lparr>exp_name = ''promo'', exp_started_on = None, exp_variants = [''A'', ''B'']\<rparr>"
    by (simp add: get_experiment_def factory_def fetchone_def promo_db_def)
  show ?thesis
    using h set_experiment_existing_name [OF h, of "[''X'', ''Y'']"] by simp
qed

text \<open>
  C4. In a well-formed database, once \<^verbatim>\<open>set_experiment(name, variants)\<close> has returned
  without raising (which it does only for a name the store did not hold),
  \<^verbatim>\<open>get_experiment(name, variants)\<close> returns an experiment with that name and with exactly
  the given variant names, in the order given.
\<close>

theorem set_then_get_experiment:
  assumes wf: "v_refs_e s"
    and ok: "set_experiment s name variants = (None, s')"
  shows "get_experiment s' name variants =
           Some \<lparr>exp_name = name, exp_started_on = None, exp_variants = variants\<rparr>"
proof -
  from ok have fresh: "name \<notin> set (map e_name (tbl_e s))"
    by (auto simp: set_experiment_def insert_pk_def split: if_splits)
  from ok have iv: "insert_variants (s\<lparr>tbl_e := tbl_e s @ [\<lparr>e_name = name, e_started_on = None\<rparr>]\<rparr>)
                      name variants = (None, s')"
    using fresh by (simp add: set_experiment_def insert_pk_def)
  have s': "s' = s\<lparr>tbl_e := tbl_e s @ [\<lparr>e_name = name, e_started_on = None\<rparr>],
                   tbl_v := tbl_v s @ map (\<lambda>x. \<lparr>v_name = x, v_experiment_name = name\<rparr>) variants\<rparr>"
    using insert_variants_ok [OF iv] by simp
  have "\<forall>r \<in> set (tbl_e s). \<not> e_name r = name"
    using fresh by auto
  then have "fetchone (filter (\<lambda>r. e_name r = name)
                         (tbl_e s @ [\<lparr>e_name = name, e_started_on = None\<rparr>])) =
               Some \<lparr>e_name = name, e_started_on = None\<rparr>"
    by (rule fetchone_filter_append_new) simp
  then have row: "fetchone (filter (\<lambda>r. e_name r = name) (tbl_e s')) =
               Some \<lparr>e_name = name, e_started_on = None\<rparr>"
    unfolding s' by simp
  have old: "filter (\<lambda>r. v_experiment_name r = name) (tbl_v s) = []"
    using wf fresh by (auto simp: v_refs_e_def list_all_iff filter_empty_conv)
  have new: "filter (\<lambda>r. v_experiment_name r = name)
               (map (\<lambda>x. \<lparr>v_name = x, v_experiment_name = name\<rparr>) variants) =
             map (\<lambda>x. \<lparr>v_name = x, v_experiment_name = name\<rparr>) variants"
    by (induction variants) auto
  have vs: "map v_name (filter (\<lambda>r. v_experiment_name r = name) (tbl_v s')) = variants"
    unfolding s' by (simp add: old new comp_def)
  show ?thesis
    using row vs by (simp add: get_experiment_def factory_def)
qed

theorem set_then_get_experiment_witness:
  "v_refs_e promo_db \<and>
   set_experiment promo_db ''color'' [''red'', ''green'', ''blue''] =
     (None, promo_db\<lparr>tbl_e := tbl_e promo_db @ [\<lparr>e_name = ''color'', e_started_on = None\<rparr>],
                     tbl_v := tbl_v promo_db @
                       [\<lparr>v_name = ''red'', v_experiment_name = ''color''\<rparr>,
                        \<lparr>v_name = ''green'', v_experiment_name = ''color''\<rparr>,
                        \<lparr>v_name = ''blue'', v_experiment_name = ''color''\<rparr>]\<rparr>) \<and>
   get_experiment
     (promo_db\<lparr>tbl_e := tbl_e promo_db @ [\<lparr>e_name = ''color'', e_started_on = None\<rparr>],
               tbl_v := tbl_v promo_db @
                 [\<lparr>v_name = ''red'', v_experiment_name = ''color''\<rparr>,
                  \<lparr>v_name = ''green'', v_experiment_name = ''color''\<rparr>,
                  \<lparr>v_name = ''blue'', v_experiment_name = ''color''\<rparr>]\<rparr>)
     ''color'' [''red'', ''green'', ''blue''] =
     Some \<lparr>exp_name = ''color'', exp_started_on = None,
           exp_variants = [''red'', ''green'', ''blue'']\<rparr>"
proof -
  have wf: "v_refs_e promo_db"
    by (simp add: v_refs_e_def promo_db_def)
  have ok: "set_experiment promo_db ''color'' [''red'', ''green'', ''blue''] =
     (None, promo_db\<lparr>tbl_e := tbl_e promo_db @ [\<lparr>e_name = ''color'', e_started_on = None\<rparr>],
                     tbl_v := tbl_v promo_db @
                       [\<lparr>v_name = ''red'', v_experiment_name = ''color''\<rparr>,
                        \<lparr>v_name = ''green'', v_experiment_name = ''color''\<rparr>,
                        \<lparr>v_name = ''blue'', v_experiment_name = ''color''\<rparr>]\<rparr>)"
    by (simp add: set_experiment_def insert_pk_def promo_db_def)
  show ?thesis
    using wf ok set_then_get_experiment [OF wf ok] by simp
qed

subsection \<open>Counters\<close>

lemma sint_succ:
  fixes w :: "64 word"
  assumes "sint w \<noteq> 2 ^ 63 - 1"
  shows "sint (w + 1) = sint w + 1"
proof -
  have lo: "- (2 ^ 63) \<le> sint w" using sint_ge [of w] by simp
  have hi: "sint w < 2 ^ 63" using sint_lt [of w] by simp
  have "sint (w + 1) = signed_take_bit 63 (sint w + sint (1 :: 64 word))"
    using sint_word_ariths(1) [of w 1] by simp
  also have "\<dots> = signed_take_bit 63 (sint w + 1)" by simp
  also have "\<dots> = sint w + 1"
    using lo hi assms by (intro signed_take_bit_int_eq_self) auto
  finally show ?thesis .
qed

lemma python_int_add_one:
  "python_int (sql_add_one t) =
     (if python_int t < 2 ^ 63 then python_int t + 1 else python_int t)"
proof (cases t)
  case (SqlInteger w)
  have "sint w < 2 ^ 63" using sint_lt [of w] by simp
  with SqlInteger show ?thesis
    by (simp add: python_int_def sql_add_one_def sint_succ)
next
  case SqlReal_2_63
  then show ?thesis by (simp add: python_int_def sql_add_one_def)
qed

lemma python_truth_iff: "python_truth t = (python_int t \<noteq> 0)"
  by (cases t) (simp_all add: python_truth_def python_int_def signed_eq_0_iff)

lemma read_total_Cons:
  "read_total e v (r # rows) =
     (if c_experiment_name r = e \<and> c_variant r = v then python_int (c_total r)
      else read_total e v rows)"
  by (simp add: read_total_def fetchone_def python_truth_iff)

lemma read_total_Nil: "read_total e v [] = 0"
  by (simp add: read_total_def fetchone_def)

lemma bump_counter_Nil:
  "bump_counter e v [] = [\<lparr>c_experiment_name = e, c_variant = v, c_total = SqlInteger 1\<rparr>]"
  by (simp add: bump_counter_def update_total_def insert_or_ignore_def sql_add_one_def)

lemma bump_counter_Cons:
  "bump_counter e v (r # rows) =
     (if c_experiment_name r = e \<and> c_variant r = v
      then r\<lparr>c_total := sql_add_one (c_total r)\<rparr> # update_total e v rows
      else r # bump_counter e v rows)"
  by (auto simp: bump_counter_def update_total_def insert_or_ignore_def counter_key_def)

lemma read_total_bump:
  "read_total e v (bump_counter e v rows) =
     (if read_total e v rows < 2 ^ 63 then read_total e v rows + 1 else read_total e v rows)"
proof (induction rows)
  case Nil
  show ?case
    by (simp add: bump_counter_Nil read_total_Cons read_total_Nil python_int_def)
next
  case (Cons r rows)
  show ?case
  proof (cases "c_experiment_name r = e \<and> c_variant r = v")
    case True
    then show ?thesis
      by (simp add: bump_counter_Cons read_total_Cons python_int_add_one)
  next
    case False
    then have "bump_counter e v (r # rows) = r # bump_counter e v rows"
      by (simp only: bump_counter_Cons if_False)
    moreover have "read_total e v (r # rows') = read_total e v rows'" for rows'
      using False by (simp only: read_total_Cons if_False)
    ultimately show ?thesis using Cons.IH by simp
  qed
qed

lemma read_total_absent:
  "(e, v) \<notin> set (map counter_key rows) \<Longrightarrow> read_total e v rows = 0"
  by (induction rows) (auto simp: read_total_def fetchone_def counter_key_def)

lemma read_total_le: "read_total e v rows \<le> 2 ^ 63"
proof (induction rows)
  case Nil
  show ?case by (simp add: read_total_Nil)
next
  case (Cons r rows)
  have "python_int (c_total r) \<le> 2 ^ 63"
  proof (cases "c_total r")
    case (SqlInteger w)
    have "sint w < 2 ^ 63" using sint_lt [of w] by simp
    with SqlInteger show ?thesis by (simp add: python_int_def)
  next
    case SqlReal_2_63
    then show ?thesis by (simp add: python_int_def)
  qed
  with Cons.IH show ?case by (simp add: read_total_Cons)
qed

text \<open>
  C5, as the code has it. One call of \<^verbatim>\<open>participate(identity, e, v)\<close> raises
  \<^verbatim>\<open>participants(e, v)\<close> by exactly 1 and one call of \<^verbatim>\<open>score(e, v)\<close> raises
  \<^verbatim>\<open>conversions(e, v)\<close> by exactly 1, with a counter row for \<open>(e, v)\<close> or without one,
  as long as the counter reads less than \<open>2 ^ 63\<close> before the call. A counter that
  reads \<open>2 ^ 63\<close> stays where it is.
\<close>

theorem participate_score_increment:
  "participants (participate s identity e v) e v =
     (if participants s e v < 2 ^ 63 then participants s e v + 1 else participants s e v) \<and>
   conversions (score s e v) e v =
     (if conversions s e v < 2 ^ 63 then conversions s e v + 1 else conversions s e v)"
  by (simp add: participants_def conversions_def participate_def score_def read_total_bump)

theorem participate_score_increment_witness:
  "participants visited_db ''promo'' ''A'' = 1 \<and>
   participants (participate visited_db ''u2'' ''promo'' ''A'') ''promo'' ''A'' = 2 \<and>
   conversions visited_db ''promo'' ''A'' = 0 \<and>
   conversions (score visited_db ''promo'' ''A'') ''promo'' ''A'' = 1"
proof -
  have p: "participants visited_db ''promo'' ''A'' = 1"
    by (simp add: participants_def read_total_Cons python_int_def visited_db_def promo_db_def)
  have c: "conversions visited_db ''promo'' ''A'' = 0"
    by (simp add: conversions_def read_total_Nil visited_db_def promo_db_def)
  show ?thesis
    using p c participate_score_increment [of visited_db "''u2''" "''promo''" "''A''"]
    by simp
qed

text \<open>
  C5, refuted as stated. The conversion counter of \<open>(promo, A)\<close> holds the largest
  64-bit integer. One call of \<^verbatim>\<open>score\<close> takes it to \<open>2 ^ 63\<close>, stored as a floating-point
  number; the next call adds 1 to that number and the sum is rounded to \<open>2 ^ 63\<close> again,
  so \<^verbatim>\<open>conversions\<close> does not increase.
\<close>

theorem score_at_limit_counterexample:
  "conversions (score limit_db ''promo'' ''A'') ''promo'' ''A'' = 9223372036854775808 \<and>
   conversions (score (score limit_db ''promo'' ''A'') ''promo'' ''A'') ''promo'' ''A'' =
     9223372036854775808 \<and>
   conversions (score (score limit_db ''promo'' ''A'') ''promo'' ''A'') ''promo'' ''A'' \<noteq>
     conversions (score limit_db ''promo'' ''A'') ''promo'' ''A'' + 1"
  by (simp add: conversions_def score_def bump_counter_Cons read_total_Cons
      sql_add_one_def python_int_def limit_db_def promo_db_def)

text \<open>
  C6. For a pair \<open>(e, v)\<close> with no row in the participation table, \<^verbatim>\<open>participants(e, v)\<close>
  is 0, and with no row in the conversion table \<^verbatim>\<open>conversions(e, v)\<close> is 0. Both methods
  are total: they return a number for every database and every key.
\<close>

theorem counters_zero_without_row:
  "((e, v) \<notin> set (map counter_key (tbl_p s)) \<longrightarrow> participants s e v = 0) \<and>
   ((e, v) \<notin> set (map counter_key (tbl_c s)) \<longrightarrow> conversions s e v = 0)"
  by (simp add: participants_def conversions_def read_total_absent)

theorem counters_zero_without_row_witness:
  "(''promo'', ''B'') \<notin> set (map counter_key (tbl_p visited_db)) \<and>
   participants visited_db ''promo'' ''B'' = 0 \<and>
   (''promo'', ''B'') \<notin> set (map counter_key (tbl_c visited_db)) \<and>
   conversions visited_db ''promo'' ''B'' = 0"
proof -
  have p: "(''promo'', ''B'') \<notin> set (map counter_key (tbl_p visited_db))"
    by (simp add: visited_db_def promo_db_def counter_key_def)
  have c: "(''promo'', ''B'') \<notin> set (map counter_key (tbl_c visited_db))"
    by (simp add: visited_db_def promo_db_def counter_key_def)
  show ?thesis
    using p c counters_zero_without_row [of "''promo''" "''B''" visited_db] by simp
qed

subsection \<open>Assignments\<close>

text \<open>
  C1, evaluated. On a new database, two calls of \<^verbatim>\<open>participate('u1', 'promo', 'A')\<close> leave
  two assignment rows for the pair \<open>('u1', 'promo')\<close> and a participation counter of 2:
  the second call is not absorbed, because table \<^verbatim>\<open>i\<close> carries no uniqueness constraint.
\<close>

theorem participate_twice_counts_twice:
  "tbl_i (participate (participate empty_db ''u1'' ''promo'' ''A'') ''u1'' ''promo'' ''A'') =
     [\<lparr>i_identity = ''u1'', i_experiment_name = ''promo'', i_variant = ''A''\<rparr>,
      \<lparr>i_identity = ''u1'', i_experiment_name = ''promo'', i_variant = ''A''\<rparr>] \<and>
   participants (participate (participate empty_db ''u1'' ''promo'' ''A'') ''u1'' ''promo'' ''A'')
     ''promo'' ''A'' = 2"
  by (simp add: participate_def participants_def bump_counter_Nil bump_counter_Cons
      read_total_Cons sql_add_one_def python_int_def empty_db_def)

subsection \<open>The lookup of an experiment\<close>

text \<open>
  \<^verbatim>\<open>get_experiment\<close> looks the experiment up by its name alone: the variant names the
  caller passes do not enter the result, although the docstring of the method says it
  retrieves an experiment by its name and variants.
\<close>

lemma get_experiment_by_name_only:
  "get_experiment s name expected = get_experiment s name expected'"
  by (simp add: get_experiment_def)

text \<open>
  C7, evaluated. Visitor \<open>u1\<close> is assigned variant \<open>A\<close> of \<open>promo\<close>, whose stored
  variants are \<open>A\<close> and \<open>B\<close>. A lookup that expects the variants \<open>C\<close> and \<open>D\<close>
  returns the stored experiment, the same answer as a lookup that expects \<open>A\<close> and
  \<open>B\<close>, and the stored assignment is returned as it is: the lookup does not take the
  expected names into account and the store reports no mismatch.
\<close>

theorem get_experiment_drift_evaluated:
  "get_experiment visited_db ''promo'' [''C'', ''D''] =
     Some \<lparr>exp_name = ''promo'', exp_started_on = None, exp_variants = [''A'', ''B'']\<rparr> \<and>
   get_experiment visited_db ''promo'' [''C'', ''D''] =
     get_experiment visited_db ''promo'' [''A'', ''B''] \<and>
   get_variant visited_db ''u1'' ''promo'' = Some ''A''"
  by (simp add: get_experiment_def get_variant_def factory_def fetchone_def
      visited_db_def promo_db_def)

subsection \<open>The constructor\<close>

lemma isinstance_true_not_path:
  "isinstance_basestring db_arg = Inr b \<Longrightarrow> sqlite3_connect fs db_arg = Inl TypeError"
  by (cases db_arg) auto

text \<open>
  C10. \<^verbatim>\<open>SQLiteBackend(db)\<close> raises for every argument, whether or not the interpreter
  knows the name \<^verbatim>\<open>basestring\<close>: the test \<^verbatim>\<open>isinstance(basestring, db)\<close> raises for a string
  and for a connection; where it answers, the argument is a class or a tuple, which
  \<^verbatim>\<open>sqlite3.connect\<close> refuses, or \<^verbatim>\<open>self._conn\<close> was never assigned. No table is created,
  since the statements that create them come after.
\<close>

theorem init_always_raises:
  "\<exists>err. init basestring_defined fs db_arg table_prefix = Inl err"
proof (cases "isinstance_basestring db_arg")
  case (Inl err)
  then show ?thesis by (simp add: init_def)
next
  case (Inr b)
  then have "sqlite3_connect fs db_arg = Inl TypeError"
    by (rule isinstance_true_not_path)
  with Inr show ?thesis by (simp add: init_def)
qed

section \<open>Properties of the engine\<close>

subsection \<open>The parser\<close>

lemma parse_keeps_order:
  "raw \<noteq> [] \<Longrightarrow> parse raw = Inr (names, vals, weights) \<Longrightarrow>
   names = map def_name raw \<and> vals = map def_value raw \<and> weights = map def_weight raw"
  by (auto simp: parse_def split: if_splits)

lemma parse_lengths:
  "parse defs = Inr (names, vals, weights) \<Longrightarrow>
   length vals = length names \<and> length weights = length names"
  by (auto simp: parse_def split: if_splits)

text \<open>
  C8. The weighted scenario: \<^verbatim>\<open>parse\<close> of the definitions red, green, blue with weights
  1, 2, 5 gives the three names, the three values and the three weights, each in the
  order of the input.
\<close>

theorem parse_weighted_scenario:
  "parse [Triple3 ''red'' (StrV ''#F00'') 1, Triple3 ''green'' (StrV ''#0F0'') 2,
          Triple3 ''blue'' (StrV ''#00F'') 5] =
     Inr ([''red'', ''green'', ''blue''],
          [StrV ''#F00'', StrV ''#0F0'', StrV ''#00F''],
          [1, 2, 5])"
  by (simp add: parse_def same_arity_def)

subsection \<open>The sampler\<close>

lemma length_accumulate: "length (accumulate running ws) = length ws"
  by (induction ws arbitrary: running) simp_all

lemma bisect_from_steps:
  "hi - lo < 2 ^ k \<Longrightarrow> snd (bisect_from a x lo hi) \<le> k"
proof (induction k arbitrary: lo hi)
  case 0
  then have "\<not> lo < hi" by simp
  then show ?case by (subst bisect_from.simps) simp
next
  case (Suc k)
  show ?case
  proof (cases "lo < hi")
    case False
    then show ?thesis by (subst bisect_from.simps) simp
  next
    case True
    let ?mid = "(lo + hi) div 2"
    from Suc.prems True have l: "?mid - lo < 2 ^ k" by simp
    from Suc.prems True have r: "hi - (?mid + 1) < 2 ^ k" by simp
    have L: "snd (bisect_from a x lo ?mid) \<le> k" using l by (rule Suc.IH)
    have R: "snd (bisect_from a x (?mid + 1) hi) \<le> k" using r by (rule Suc.IH)
    show ?thesis
      using True L R
      by (subst bisect_from.simps) (simp add: split_beta)
  qed
qed

text \<open>
  C9. The array the sampler builds has one entry per variant, whatever the weights are,
  and a selection among fewer than \<open>2 ^ k\<close> variants compares the draw with at most \<open>k\<close>
  boundaries, for every draw and every magnitude of the weights.
\<close>

theorem choose_cost_bounds:
  "length (cumulative weights) = length weights \<and>
   (length weights < 2 ^ k \<longrightarrow> snd (choose_cost weights r) \<le> k)"
proof -
  have len: "length (cumulative weights) = length weights"
    by (simp add: cumulative_def length_accumulate)
  have "snd (choose_cost weights r) \<le> k" if "length weights < 2 ^ k"
  proof -
    from that have "length (cumulative weights) - 0 < 2 ^ k" by (simp add: len)
    then show ?thesis unfolding choose_cost_def by (rule bisect_from_steps)
  qed
  with len show ?thesis by simp
qed

theorem choose_cost_bounds_witness:
  "length (cumulative [1000000, 1000000, 1000000]) = 3 \<and>
   length [1000000, 1000000, 1000000 :: int] < 2 ^ 2 \<and>
   snd (choose_cost [1000000, 1000000, 1000000] 2500000) \<le> 2"
  using choose_cost_bounds [of "[1000000, 1000000, 1000000]" 2 2500000] by simp

subsection \<open>The split operation\<close>

lemma insert_variants_keeps:
  "tbl_i (snd (insert_variants s name vs)) = tbl_i s \<and>
   tbl_e (snd (insert_variants s name vs)) = tbl_e s"
  by (induction vs arbitrary: s) (simp_all add: insert_pk_def)

lemma set_experiment_keeps_assignments:
  "tbl_i (snd (set_experiment s name vs)) = tbl_i s"
  by (simp add: set_experiment_def insert_pk_def insert_variants_keeps)

lemma ensure_experiment_keeps_assignments:
  "tbl_i (snd (ensure_experiment s name names)) = tbl_i s"
proof (cases "get_experiment s name names")
  case None
  obtain res s1 where se: "set_experiment s name names = (res, s1)"
    by (cases "set_experiment s name names")
  then have "tbl_i s1 = tbl_i s"
    using set_experiment_keeps_assignments [of s name names] by simp
  with None se show ?thesis
    by (simp add: ensure_experiment_def split: option.splits)
next
  case (Some ex)
  then show ?thesis by (simp add: ensure_experiment_def)
qed

lemma ensure_experiment_found:
  "ensure_experiment s name names = (None, s1) \<Longrightarrow> get_experiment s1 name names' \<noteq> None"
  by (auto simp: ensure_experiment_def get_experiment_def split: option.splits prod.splits)

lemma ensure_experiment_present:
  "get_experiment s name names' \<noteq> None \<Longrightarrow> ensure_experiment s name names = (None, s)"
  by (auto simp: ensure_experiment_def get_experiment_def split: option.splits)

lemma factory_participate: "factory (participate s identity e v) row = factory s row"
  by (simp add: factory_def participate_def)

lemma get_experiment_participate:
  "get_experiment (participate s identity e v) name names = get_experiment s name names"
proof -
  have "tbl_e (participate s identity e v) = tbl_e s"
    by (simp add: participate_def)
  then show ?thesis
    by (simp add: get_experiment_def factory_participate split: option.splits)
qed

lemma get_variant_participate_new:
  "get_variant s identity e = None \<Longrightarrow> get_variant (participate s identity e v) identity e = Some v"
proof -
  assume "get_variant s identity e = None"
  then have "filter (\<lambda>r. i_identity r = identity \<and> i_experiment_name r = e) (tbl_i s) = []"
    by (simp add: get_variant_def fetchone_None_iff split: option.splits)
  then show ?thesis
    by (simp add: get_variant_def participate_def fetchone_def)
qed

lemma split_stable:
  assumes "split s identity r name defs = (Inr v, s1)"
  shows "split s1 identity r' name defs = (Inr v, s1)"
proof -
  from assms obtain names vals weights where p: "parse defs = Inr (names, vals, weights)"
    by (auto simp: split_def split: sum.splits)
  from assms p obtain s0 where e: "ensure_experiment s name names = (None, s0)"
    by (auto simp: split_def split: prod.splits option.splits)
  from assms p e obtain ident where i: "identity = Some ident"
    by (auto simp: split_def split: option.splits)
  have found: "get_experiment s0 name names \<noteq> None"
    using e by (rule ensure_experiment_found)
  show ?thesis
  proof (cases "get_variant s0 ident name")
    case (Some vn)
    with assms p e i have d: "decode names vals vn = Inr v" and s1: "s1 = s0"
      by (auto simp: split_def)
    have "ensure_experiment s0 name names = (None, s0)"
      using found by (rule ensure_experiment_present)
    with p i Some d s1 show ?thesis by (simp add: split_def)
  next
    case None
    let ?vn = "names ! choose_index weights r"
    from assms p e i None have k: "choose_index weights r < length names"
      by (auto simp: split_def split: if_splits)
    with assms p e i None have d: "decode names vals ?vn = Inr v"
      and s1: "s1 = participate s0 ident name ?vn"
      by (auto simp: split_def)
    have "get_experiment s1 name names \<noteq> None"
      using found by (simp add: s1 get_experiment_participate)
    then have "ensure_experiment s1 name names = (None, s1)"
      by (rule ensure_experiment_present)
    moreover have "get_variant s1 ident name = Some ?vn"
      unfolding s1 using None by (rule get_variant_participate_new)
    ultimately show ?thesis using p i d by (simp add: split_def)
  qed
qed

lemma split_assignments:
  "length (tbl_i (snd (split s identity r name defs))) \<le> length (tbl_i s) + 1"
proof (cases "parse defs")
  case (Inl err)
  then show ?thesis by (simp add: split_def)
next
  case (Inr parsed)
  obtain names vals weights where parsed: "parsed = (names, vals, weights)"
    by (cases parsed)
  obtain res s0 where e: "ensure_experiment s name names = (res, s0)"
    by (cases "ensure_experiment s name names")
  then have keep: "tbl_i s0 = tbl_i s"
    using ensure_experiment_keeps_assignments [of s name names] by simp
  show ?thesis
    using Inr parsed e keep
    by (simp add: split_def participate_def split: option.splits)
qed

lemma index_of_nth:
  "k < length names \<Longrightarrow> \<exists>j. index_of names (names ! k) = Some j \<and> j \<le> k"
proof (induction names arbitrary: k)
  case Nil
  then show ?case by simp
next
  case (Cons n ns)
  show ?case
  proof (cases k)
    case 0
    then show ?thesis by simp
  next
    case (Suc m)
    with Cons.prems have "m < length ns" by simp
    then obtain j where "index_of ns (ns ! m) = Some j" "j \<le> m"
      using Cons.IH by blast
    with Suc show ?thesis by auto
  qed
qed

lemma decode_chosen:
  assumes "k < length names" and "length vals = length names"
  shows "\<exists>v. decode names vals (names ! k) = Inr v"
proof -
  from assms(1) obtain j where "index_of names (names ! k) = Some j" "j \<le> k"
    using index_of_nth by blast
  with assms show ?thesis by (simp add: decode_def)
qed

lemma split_failure_keeps_assignments:
  assumes "split s identity r name defs = (Inl err, s1)"
  shows "tbl_i s1 = tbl_i s"
proof (cases "parse defs")
  case (Inl e)
  with assms show ?thesis by (simp add: split_def)
next
  case (Inr parsed)
  obtain names vals weights where parsed: "parsed = (names, vals, weights)"
    by (cases parsed)
  have len: "length vals = length names"
    using Inr parsed parse_lengths by simp
  obtain res s0 where e: "ensure_experiment s name names = (res, s0)"
    by (cases "ensure_experiment s name names")
  then have keep: "tbl_i s0 = tbl_i s"
    using ensure_experiment_keeps_assignments [of s name names] by simp
  have chosen: "choose_index weights r < length names \<Longrightarrow>
      decode names vals (names ! choose_index weights r) \<noteq> Inl err"
    using decode_chosen [OF _ len] by fastforce
  show ?thesis
    using assms Inr parsed e keep chosen
    by (auto simp: split_def split: option.splits if_splits)
qed

text \<open>
  C2. Once a call of \<^verbatim>\<open>split\<close> has returned a value for a visitor and an experiment,
  every further call with the same definitions returns that value again, whatever the
  sampler would draw and however often the call is repeated, and leaves the database as
  it is, so it does not call \<^verbatim>\<open>participate\<close>. The first call added at most one row to
  the assignment table, the row that one call of \<^verbatim>\<open>participate\<close> writes.
\<close>

theorem split_repeatable:
  assumes "split s identity r name defs = (Inr v, s1)"
  shows "split_again s1 identity name defs rs = (replicate (length rs) (Inr v), s1) \<and>
         length (tbl_i s1) \<le> length (tbl_i s) + 1"
proof -
  have again: "split s1 identity r' name defs = (Inr v, s1)" for r'
    using assms by (rule split_stable)
  have "split_again s1 identity name defs rs = (replicate (length rs) (Inr v), s1)"
    by (induction rs) (simp_all add: again)
  moreover have "length (tbl_i s1) \<le> length (tbl_i s) + 1"
    using split_assignments [of s identity r name defs] assms by simp
  ultimately show ?thesis by simp
qed

theorem split_repeatable_witness:
  "split empty_db (Some ''u1'') 1 ''show_promo'' [] =
     (Inr (BoolV False),
      \<lparr>tbl_e = [\<lparr>e_name = ''show_promo'', e_started_on = None\<rparr>],
       tbl_v = [\<lparr>v_name = ''True'', v_experiment_name = ''show_promo''\<rparr>,
                \<lparr>v_name = ''False'', v_experiment_name = ''show_promo''\<rparr>],
       tbl_i = [\<lparr>i_identity = ''u1'', i_experiment_name = ''show_promo'', i_variant = ''False''\<rparr>],
       tbl_p = [\<lparr>c_experiment_name = ''show_promo'', c_variant = ''False'', c_total = SqlInteger 1\<rparr>],
       tbl_c = []\<rparr>) \<and>
   split_again
     \<lparr>tbl_e = [\<lparr>e_name = ''show_promo'', e_started_on = None\<rparr>],
      tbl_v = [\<lparr>v_name = ''True'', v_experiment_name = ''show_promo''\<rparr>,
               \<lparr>v_name = ''False'', v_experiment_name = ''show_promo''\<rparr>],
      tbl_i = [\<lparr>i_identity = ''u1'', i_experiment_name = ''show_promo'', i_variant = ''False''\<rparr>],
      tbl_p = [\<lparr>c_experiment_name = ''show_promo'', c_variant = ''False'', c_total = SqlInteger 1\<rparr>],
      tbl_c = []\<rparr>
     (Some ''u1'') ''show_promo'' [] [0, 0] =
     ([Inr (BoolV False), Inr (BoolV False)],
      \<lparr>tbl_e = [\<lparr>e_name = ''show_promo'', e_started_on = None\<rparr>],
       tbl_v = [\<lparr>v_name = ''True'', v_experiment_name = ''show_promo''\<rparr>,
                \<lparr>v_name = ''False'', v_experiment_name = ''show_promo''\<rparr>],
       tbl_i = [\<lparr>i_identity = ''u1'', i_experiment_name = ''show_promo'', i_variant = ''False''\<rparr>],
       tbl_p = [\<lparr>c_experiment_name = ''show_promo'', c_variant = ''False'', c_total = SqlInteger 1\<rparr>],
       tbl_c = []\<rparr>)"
proof -
  have cum: "cumulative [1, 1] = [1, 2]"
    by (simp add: cumulative_def)
  have pick: "choose_index [1, 1] 1 = 1"
    by (simp add: choose_index_def choose_cost_def cum)
  have first: "split empty_db (Some ''u1'') 1 ''show_promo'' [] =
     (Inr (BoolV False),
      \<lparr>tbl_e = [\<lparr>e_name = ''show_promo'', e_started_on = None\<rparr>],
       tbl_v = [\<lparr>v_name = ''True'', v_experiment_name = ''show_promo''\<rparr>,
                \<lparr>v_name = ''False'', v_experiment_name = ''show_promo''\<rparr>],
       tbl_i = [\<lparr>i_identity = ''u1'', i_experiment_name = ''show_promo'', i_variant = ''False''\<rparr>],
       tbl_p = [\<lparr>c_experiment_name = ''show_promo'', c_variant = ''False'', c_total = SqlInteger 1\<rparr>],
       tbl_c = []\<rparr>)"
    by (simp add: split_def parse_def ensure_experiment_def get_experiment_def
        set_experiment_def insert_pk_def get_variant_def fetchone_def factory_def
        participate_def bump_counter_def update_total_def insert_or_ignore_def
        counter_key_def sql_add_one_def decode_def empty_db_def pick)
  show ?thesis
    using first split_repeatable [OF first, of "[0, 0]"] by simp
qed

text \<open>
  At the same input the split operation surfaces the drift: visitor \<open>u1\<close> holds variant
  \<open>A\<close>, the definitions supplied name \<open>C\<close> and \<open>D\<close>, and the call ends in an error
  for every draw, with the database as it was.
\<close>

lemma split_surfaces_drift:
  "split visited_db (Some ''u1'') r ''promo'' [Pair2 ''C'' (StrV ''c''), Pair2 ''D'' (StrV ''d'')] =
     (Inl ConfigurationDrift, visited_db)"
  by (simp add: split_def parse_def same_arity_def ensure_experiment_def get_experiment_def
      get_variant_def fetchone_def decode_def visited_db_def promo_db_def)

end
